theory Spec2Isabelle
  imports Main "HOL-Library.Sublist"
begin

section \<open>arcasHLA extract: read extraction from a BAM file\<close>

text \<open>
  A shallow embedding of \<^verbatim>\<open>scripts/extract.py\<close>. The script builds argument
  lists, hands them to \<^verbatim>\<open>run_command\<close>, tests for files with
  \<^verbatim>\<open>isfile\<close> and finally calls \<^verbatim>\<open>remove_files\<close>. The helpers
  \<^verbatim>\<open>run_command\<close> and \<^verbatim>\<open>remove_files\<close> live in
  \<^verbatim>\<open>arcas_utilities\<close>, outside this file, and the tools they start are
  external programs; what they do to the outside world is therefore a parameter of the
  model (an environment over an abstract world), and every call is recorded in a trace.
  Both helpers are taken to return to their caller.
  Python strings are modelled as \<^typ>\<open>string\<close>; the path functions are those of
  \<^verbatim>\<open>posixpath\<close>.
\<close>

subsection \<open>Python string and path primitives\<close>

text \<open>\<^verbatim>\<open>sub in s\<close> on Python strings: \<^verbatim>\<open>sub\<close> occurs as a contiguous substring.\<close>

fun str_in :: "string \<Rightarrow> string \<Rightarrow> bool" where
  "str_in sub [] = (sub = [])"
| "str_in sub (c # cs) = (prefix sub (c # cs) \<or> str_in sub cs)"

text \<open>
  \<^verbatim>\<open>p.rfind(c)\<close> for a one-character \<^verbatim>\<open>c\<close>: the index of the last
  occurrence, or \<open>-1\<close>. The scan goes left to right and remembers the last hit.
\<close>

fun rfind_from :: "char \<Rightarrow> string \<Rightarrow> int \<Rightarrow> int \<Rightarrow> int" where
  "rfind_from c [] i found = found"
| "rfind_from c (x # xs) i found = rfind_from c xs (i + 1) (if x = c then i else found)"

definition rfind :: "string \<Rightarrow> char \<Rightarrow> int" where
  "rfind p c = rfind_from c p 0 (- 1)"

text \<open>
  \<^verbatim>\<open>posixpath.basename\<close>:
  \<^verbatim>\<open>i = p.rfind('/') + 1; return p[i:]\<close>.
\<close>

definition basename :: "string \<Rightarrow> string" where
  "basename p = (let i = rfind p CHR ''/'' + 1 in drop (nat i) p)"

text \<open>
  \<^verbatim>\<open>genericpath._splitext(p, '/', None, '.')\<close>. The loop skips the leading dots
  of the file name: it returns the split at the first character that is not a dot, and
  falls through when there is none before \<^verbatim>\<open>dotIndex\<close>.
  \<^verbatim>\<open>
    sepIndex = p.rfind(sep)
    dotIndex = p.rfind(extsep)
    if dotIndex > sepIndex:
        filenameIndex = sepIndex + 1
        while filenameIndex < dotIndex:
            if p[filenameIndex:filenameIndex+1] != extsep:
                return p[:dotIndex], p[dotIndex:]
            filenameIndex += 1
    return p, p[:0]
  \<close>
  \<open>splitext_loop\<close> is the while loop: \<open>Some\<close> of the pair it returns, or \<open>None\<close> when
  it runs to its end.
\<close>

function splitext_loop :: "string \<Rightarrow> nat \<Rightarrow> nat \<Rightarrow> (string \<times> string) option" where
  "splitext_loop p filenameIndex dotIndex =
     (if filenameIndex < dotIndex then
        (if take 1 (drop filenameIndex p) \<noteq> ''.''
         then Some (take dotIndex p, drop dotIndex p)
         else splitext_loop p (filenameIndex + 1) dotIndex)
      else None)"
  by pat_completeness auto
termination
  by (relation "measure (\<lambda>(p, filenameIndex, dotIndex). dotIndex - filenameIndex)") auto

definition splitext :: "string \<Rightarrow> string \<times> string" where
  "splitext p =
     (let sepIndex = rfind p CHR ''/'';
          dotIndex = rfind p CHR ''.''
      in if dotIndex > sepIndex then
           (case splitext_loop p (nat (sepIndex + 1)) (nat dotIndex) of
              Some r \<Rightarrow> r
            | None \<Rightarrow> (p, []))
         else (p, []))"

text \<open>\<^verbatim>\<open>s.split(c)\<close> for a one-character separator: never an empty list.\<close>

fun split_char :: "char \<Rightarrow> string \<Rightarrow> string list" where
  "split_char c [] = [[]]"
| "split_char c (x # xs) =
     (if x = c then [] # split_char c xs
      else (case split_char c xs of
              [] \<Rightarrow> [[x]]
            | f # fs \<Rightarrow> (x # f) # fs))"

subsection \<open>The outside world, events and errors\<close>

type_synonym command = "string list"

text \<open>
  What a run does that can be observed: a line sent to the log, a call of
  \<^verbatim>\<open>run_command(command, message)\<close> (the message is \<open>None\<close> when the call
  gives none), and the call of \<^verbatim>\<open>remove_files(file_list, keep_files)\<close>.
\<close>

datatype event =
    Log string
  | Run command "string option"
  | Remove "string list" bool

datatype error =
    SysExit string
  | UnicodeDecodeError

text \<open>
  The environment: \<open>isfile\<close> is \<^verbatim>\<open>os.path.isfile\<close>; \<open>shell\<close> is what running a
  command does to the world, with the standard output decoded as UTF-8 (\<open>None\<close> when the
  bytes do not decode); \<open>unlink\<close> is what \<^verbatim>\<open>remove_files\<close> does to the world.
\<close>

record 'w env =
  isfile :: "'w \<Rightarrow> string \<Rightarrow> bool"
  shell :: "command \<Rightarrow> 'w \<Rightarrow> 'w \<times> string option"
  unlink :: "string list \<Rightarrow> bool \<Rightarrow> 'w \<Rightarrow> 'w"

record 'w run_state =
  world :: 'w
  trace :: "event list"

definition log_info :: "string \<Rightarrow> 'w run_state \<Rightarrow> 'w run_state" where
  "log_info line s = s\<lparr>trace := trace s @ [Log line]\<rparr>"

definition run_command ::
  "'w env \<Rightarrow> command \<Rightarrow> string option \<Rightarrow> 'w run_state \<Rightarrow> 'w run_state \<times> string option" where
  "run_command E command message s =
     (let (w, out) = shell E command (world s)
      in (\<lparr>world = w, trace = trace s @ [Run command message]\<rparr>, out))"

definition remove_files ::
  "'w env \<Rightarrow> string list \<Rightarrow> bool \<Rightarrow> 'w run_state \<Rightarrow> 'w run_state" where
  "remove_files E file_list keep_files s =
     \<lparr>world = unlink E file_list keep_files (world s),
      trace = trace s @ [Remove file_list keep_files]\<rparr>"

subsection \<open>index\_bam\<close>

text \<open>
  \<^verbatim>\<open>
  def index_bam(bam):
      if not isfile(''.join([bam, '.bai'])):
          run_command(['samtools', 'index', bam], '[extract] indexing bam: ')
      if not isfile(''.join([bam, '.bai'])):
          sys.exit('[extract] Error: unable to index bam file.')
  \<close>
  The result is the state reached and the error raised, if any.
\<close>

definition index_bam :: "'w env \<Rightarrow> string \<Rightarrow> 'w run_state \<Rightarrow> 'w run_state \<times> error option" where
  "index_bam E bam s0 =
     (let s1 = (if \<not> isfile E (world s0) (bam @ ''.bai'')
                then fst (run_command E [''samtools'', ''index'', bam]
                            (Some ''[extract] indexing bam: '') s0)
                else s0)
      in if \<not> isfile E (world s1) (bam @ ''.bai'')
         then (s1, Some (SysExit ''[extract] Error: unable to index bam file.''))
         else (s1, None))"

subsection \<open>extract\_reads\<close>

text \<open>
  The sample name, line 63:
  \<^verbatim>\<open>sample = os.path.splitext(os.path.basename(bam))[0]\<close>.
\<close>

definition extract_sample :: "string \<Rightarrow> string" where
  "extract_sample bam = fst (splitext (basename bam))"


text \<open>
  The loop over the alt and decoy contigs (lines 108 to 116):
  \<^verbatim>\<open>
    for alt in alts:
        if alt in header:
            command = ['samtools', 'view', '-@'+threads]
            if paired: command.append('-f 2')
            else: command.append('-F 4')
            command.extend([bam, alt+':', '>>', hla_filtered])
            run_command(command)
  \<close>
\<close>

fun extract_alts ::
  "'w env \<Rightarrow> string \<Rightarrow> bool \<Rightarrow> string \<Rightarrow> string \<Rightarrow> string \<Rightarrow> string list \<Rightarrow>
   'w run_state \<Rightarrow> 'w run_state" where
  "extract_alts E bam paired threads header hla_filtered [] s = s"
| "extract_alts E bam paired threads header hla_filtered (alt # alts) s =
     (if str_in alt header then
        (let command = [''samtools'', ''view'', ''-@'' @ threads];
             command = (if paired then command @ [''-f 2''] else command @ [''-F 4'']);
             command = command @ [bam, alt @ '':'', ''>>'', hla_filtered];
             s = fst (run_command E command None s)
         in extract_alts E bam paired threads header hla_filtered alts s)
      else extract_alts E bam paired threads header hla_filtered alts s)"

text \<open>
  \<^verbatim>\<open>extract_reads\<close> (lines 56 to 152), statement by statement, with the
  state threaded through. The options \<^verbatim>\<open>paired\<close>, \<^verbatim>\<open>unmapped\<close> and
  \<^verbatim>\<open>keep_files\<close> are only tested for truth, so they are booleans here. The run
  stops with an error when \<^verbatim>\<open>index_bam\<close> exits and when the output of the
  header dump does not decode; \<^verbatim>\<open>file_list.append(x)\<close> is
  \<open>file_list @ [x]\<close>, \<^verbatim>\<open>command.extend(xs)\<close> is \<open>command @ xs\<close>.
\<close>

definition extract_reads ::
  "'w env \<Rightarrow> string \<Rightarrow> string \<Rightarrow> bool \<Rightarrow> bool \<Rightarrow> string list \<Rightarrow> string \<Rightarrow> string \<Rightarrow> bool \<Rightarrow>
   'w run_state \<Rightarrow> 'w run_state \<times> error option" where
  "extract_reads E bam outdir paired unmapped alts temp threads keep_files s =
     (let s = log_info (CHR 0x0A # ''[extract] extracting reads from '' @ bam) s;
          file_list = [];
          sample = extract_sample bam
      in \<comment> \<open>Index bam\<close>
         case index_bam E bam s of
           (s, Some e) \<Rightarrow> (s, Some e)
         | (s, None) \<Rightarrow>
     (let hla_filtered = temp @ sample @ ''.hla.sam'';
          file_list = file_list @ [hla_filtered];
          hla_filtered_bam = temp @ sample @ ''.hla.bam'';
          file_list = file_list @ [hla_filtered_bam];
          \<comment> \<open>Get bam header to check for chromosome nomenclature\<close>
          (s, output) = run_command E [''samtools'', ''view'', ''-@'' @ threads, ''-H'', bam] None s
      in case output of
           None \<Rightarrow> (s, Some UnicodeDecodeError)
         | Some header \<Rightarrow>
     (let chrom = (if str_in ''SN:chr'' header then ''chr6'' else ''6'');
          \<comment> \<open>Extract BAM header\<close>
          message = ''[extract] extracting chromosome 6: '';
          command = [''samtools'', ''view'', ''-H'', ''-@'' @ threads];
          command = command @ [bam, ''-o'', hla_filtered];
          s = fst (run_command E command (Some message) s);
          \<comment> \<open>Extracted reads mapped to chromosome 6\<close>
          message = ''[extract] extracting chromosome 6: '';
          command = [''samtools'', ''view'', ''-@'' @ threads];
          command = (if paired then command @ [''-f 2''] else command @ [''-F 4'']);
          command = command @ [bam, chrom, ''>>'', hla_filtered];
          s = fst (run_command E command (Some message) s);
          \<comment> \<open>Extract unmapped reads\<close>
          s = (if unmapped then
                 (let message = ''[extract] extracting chromosome 6: '';
                      command = [''samtools'', ''view'', ''-@'' @ threads];
                      command = (if paired then command @ [''-f 12''] else command @ [''-f 4'']);
                      command = command @ [bam, chrom, ''>>'', hla_filtered]
                  in fst (run_command E command (Some message) s))
               else s);
          \<comment> \<open>Check for alts in header and extract reads if present\<close>
          s = extract_alts E bam paired threads header hla_filtered alts s;
          \<comment> \<open>Convert SAM to BAM\<close>
          message = ''[extract] converting SAM to BAM: '';
          command = [''samtools'', ''view'', ''-Sb'', ''-@'' @ threads,
                     hla_filtered, ''>'', hla_filtered_bam];
          s = fst (run_command E command (Some message) s);
          \<comment> \<open>Sort BAM\<close>
          hla_sorted = temp @ sample @ ''.hla.sorted.bam'';
          file_list = file_list @ [hla_sorted];
          message = ''[extract] sorting bam: '';
          command = [''samtools'', ''sort'', ''-n'', ''-@'' @ threads,
                     hla_filtered_bam, ''-o'', hla_sorted];
          s = fst (run_command E command (Some message) s);
          \<comment> \<open>Convert BAM to FASTQ and compress\<close>
          message = ''[extract] converting bam to fastq: '';
          command = [''bedtools'', ''bamtofastq'', ''-i'', hla_sorted];
          s = (if paired then
                 (let fq1 = outdir @ sample @ ''.extracted.1.fq'';
                      fq2 = outdir @ sample @ ''.extracted.2.fq'';
                      command = command @ [''-fq'', fq1, ''-fq2'', fq2];
                      s = fst (run_command E command (Some message) s);
                      s = fst (run_command E
                                 [''pigz'', ''-f'', ''-p'', threads, ''-S'', ''.gz'', fq1] None s)
                  in fst (run_command E
                            [''pigz'', ''-f'', ''-p'', threads, ''-S'', ''.gz'', fq2] None s))
               else
                 (let fq = outdir @ sample @ ''.extracted.fq'';
                      command = command @ [''-fq'', fq];
                      s = fst (run_command E command (Some message) s)
                  in fst (run_command E
                            [''pigz'', ''-f'', ''-p'', threads, ''-S'', ''.gz'', fq] None s)))
      in (remove_files E file_list keep_files s, None))))"

subsection \<open>The sample name of the main program\<close>

text \<open>
  Line 221: \<^verbatim>\<open>sample = os.path.basename(args.bam).split('.')[0]\<close>, and line 226,
  the default log file: \<^verbatim>\<open>''.join([outdir, sample, '.extract.log'])\<close>.
\<close>

definition main_sample :: "string \<Rightarrow> string" where
  "main_sample bam = (case split_char CHR ''.'' (basename bam) of [] \<Rightarrow> [] | f # fs \<Rightarrow> f)"

definition main_log_file :: "string \<Rightarrow> string \<Rightarrow> string" where
  "main_log_file outdir bam = outdir @ main_sample bam @ ''.extract.log''"

subsection \<open>Observing a run\<close>

text \<open>The events a run adds to the trace, and the commands among them, in order.\<close>

definition issued :: "'w run_state \<Rightarrow> 'w run_state \<Rightarrow> event list" where
  "issued s s' = drop (length (trace s)) (trace s')"

fun commands :: "event list \<Rightarrow> command list" where
  "commands [] = []"
| "commands (Run c m # evs) = c # commands evs"
| "commands (Log l # evs) = commands evs"
| "commands (Remove fl k # evs) = commands evs"

fun removals :: "event list \<Rightarrow> (string list \<times> bool) list" where
  "removals [] = []"
| "removals (Remove fl k # evs) = (fl, k) # removals evs"
| "removals (Run c m # evs) = removals evs"
| "removals (Log l # evs) = removals evs"

text \<open>
  What the environment answers during a run that starts in world \<open>w\<close>: the world after
  the index step, whether the index file is there then (otherwise \<^verbatim>\<open>index_bam\<close>
  exits), and the header that the header dump prints (\<open>None\<close> when the run does not get
  that far or the output does not decode).
\<close>

definition index_world :: "'w env \<Rightarrow> string \<Rightarrow> 'w \<Rightarrow> 'w" where
  "index_world E bam w =
     (if isfile E w (bam @ ''.bai'') then w
      else fst (shell E [''samtools'', ''index'', bam] w))"

definition index_ok :: "'w env \<Rightarrow> string \<Rightarrow> 'w \<Rightarrow> bool" where
  "index_ok E bam w = isfile E (index_world E bam w) (bam @ ''.bai'')"

definition bam_header :: "'w env \<Rightarrow> string \<Rightarrow> string \<Rightarrow> 'w \<Rightarrow> string option" where
  "bam_header E bam threads w =
     (if index_ok E bam w
      then snd (shell E [''samtools'', ''view'', ''-@'' @ threads, ''-H'', bam] (index_world E bam w))
      else None)"

text \<open>
  The steps of the pipeline, and the step a command line belongs to, read off its tool
  name and the fixed arguments around the variable ones.
\<close>

datatype step =
    Index | HeaderDump | HeaderExtract | ReadExtract | SamToBam
  | SortBam | BamToFastq | Compress | Unknown

definition step_of :: "command \<Rightarrow> step" where
  "step_of c =
     (if take 2 c = [''samtools'', ''index''] then Index
      else if take 2 c = [''samtools'', ''sort''] then SortBam
      else if take 2 c = [''bedtools'', ''bamtofastq''] then BamToFastq
      else if take 1 c = [''pigz''] then Compress
      else if take 2 c = [''samtools'', ''view''] then
        (if take 1 (drop 2 c) = [''-H''] then HeaderExtract
         else if take 1 (drop 2 c) = [''-Sb''] then SamToBam
         else if take 1 (drop 3 c) = [''-H''] then HeaderDump
         else if take 1 (drop 6 c) = [''>>''] then ReadExtract
         else Unknown)
      else Unknown)"

definition steps :: "event list \<Rightarrow> step list" where
  "steps evs = map step_of (commands evs)"

definition read_extractions :: "event list \<Rightarrow> command list" where
  "read_extractions evs = filter (\<lambda>c. step_of c = ReadExtract) (commands evs)"

text \<open>The read extractions for one region: the region is the sixth argument.\<close>

definition with_region :: "string \<Rightarrow> command list \<Rightarrow> command list" where
  "with_region r cs = filter (\<lambda>c. take 1 (drop 5 c) = [r]) cs"

text \<open>The read extractions with one SAM-flag filter: the filter is the fourth argument.\<close>

definition with_flag :: "string \<Rightarrow> command list \<Rightarrow> command list" where
  "with_flag f cs = filter (\<lambda>c. take 1 (drop 3 c) = [f]) cs"

text \<open>
  The place of the thread argument in a command line: \<^verbatim>\<open>'-@'+threads\<close> for
  samtools view and sort, the argument after \<^verbatim>\<open>-p\<close> for pigz.
\<close>

definition threads_pos :: "command \<Rightarrow> nat option" where
  "threads_pos c =
     (case step_of c of
        HeaderDump \<Rightarrow> Some 2
      | HeaderExtract \<Rightarrow> Some 3
      | ReadExtract \<Rightarrow> Some 2
      | SamToBam \<Rightarrow> Some 3
      | SortBam \<Rightarrow> Some 3
      | Compress \<Rightarrow> Some 3
      | Index \<Rightarrow> None
      | BamToFastq \<Rightarrow> None
      | Unknown \<Rightarrow> None)"

definition passes_threads :: "string \<Rightarrow> command \<Rightarrow> bool" where
  "passes_threads threads c =
     (if take 2 c = [''samtools'', ''view''] \<or> take 2 c = [''samtools'', ''sort''] then
        (case threads_pos c of
           None \<Rightarrow> False
         | Some i \<Rightarrow> take 1 (drop i c) = [''-@'' @ threads])
      else if take 1 c = [''pigz''] then take 2 (drop 2 c) = [''-p'', threads]
      else True)"

definition erase_threads :: "command \<Rightarrow> command" where
  "erase_threads c =
     (case threads_pos c of
        None \<Rightarrow> c
      | Some i \<Rightarrow> take i c @ drop (Suc i) c)"

fun erase_event :: "event \<Rightarrow> event" where
  "erase_event (Run c m) = Run (erase_threads c) m"
| "erase_event (Log l) = Log l"
| "erase_event (Remove fl k) = Remove fl k"

text \<open>
  The events of a run in closed form, used to state what the run emits: the log line
  and the index step, and the events of the body after the header dump. That the code
  emits exactly these is proved below (\<open>extract_reads_trace\<close>).
\<close>

definition start_events :: "'w env \<Rightarrow> string \<Rightarrow> 'w \<Rightarrow> event list" where
  "start_events E bam w =
     Log (CHR 0x0A # ''[extract] extracting reads from '' @ bam) #
     (if isfile E w (bam @ ''.bai'') then []
      else [Run [''samtools'', ''index'', bam] (Some ''[extract] indexing bam: '')])"

definition body_events ::
  "string \<Rightarrow> string \<Rightarrow> bool \<Rightarrow> bool \<Rightarrow> string list \<Rightarrow> string \<Rightarrow> string \<Rightarrow> bool \<Rightarrow> string \<Rightarrow> event list" where
  "body_events bam outdir paired unmapped alts temp threads keep_files header =
     [Run [''samtools'', ''view'', ''-H'', ''-@'' @ threads, bam, ''-o'',
           temp @ extract_sample bam @ ''.hla.sam'']
          (Some ''[extract] extracting chromosome 6: ''),
      Run [''samtools'', ''view'', ''-@'' @ threads, (if paired then ''-f 2'' else ''-F 4''),
           bam, (if str_in ''SN:chr'' header then ''chr6'' else ''6''), ''>>'',
           temp @ extract_sample bam @ ''.hla.sam'']
          (Some ''[extract] extracting chromosome 6: '')] @
     (if unmapped then
        [Run [''samtools'', ''view'', ''-@'' @ threads, (if paired then ''-f 12'' else ''-f 4''),
              bam, (if str_in ''SN:chr'' header then ''chr6'' else ''6''), ''>>'',
              temp @ extract_sample bam @ ''.hla.sam'']
             (Some ''[extract] extracting chromosome 6: '')]
      else []) @
     map (\<lambda>alt. Run [''samtools'', ''view'', ''-@'' @ threads,
                       (if paired then ''-f 2'' else ''-F 4''),
                       bam, alt @ '':'', ''>>'', temp @ extract_sample bam @ ''.hla.sam''] None)
         (filter (\<lambda>alt. str_in alt header) alts) @
     [Run [''samtools'', ''view'', ''-Sb'', ''-@'' @ threads,
           temp @ extract_sample bam @ ''.hla.sam'', ''>'',
           temp @ extract_sample bam @ ''.hla.bam'']
          (Some ''[extract] converting SAM to BAM: ''),
      Run [''samtools'', ''sort'', ''-n'', ''-@'' @ threads,
           temp @ extract_sample bam @ ''.hla.bam'', ''-o'',
           temp @ extract_sample bam @ ''.hla.sorted.bam'']
          (Some ''[extract] sorting bam: '')] @
     (if paired then
        [Run [''bedtools'', ''bamtofastq'', ''-i'', temp @ extract_sample bam @ ''.hla.sorted.bam'',
              ''-fq'', outdir @ extract_sample bam @ ''.extracted.1.fq'',
              ''-fq2'', outdir @ extract_sample bam @ ''.extracted.2.fq'']
             (Some ''[extract] converting bam to fastq: ''),
         Run [''pigz'', ''-f'', ''-p'', threads, ''-S'', ''.gz'',
              outdir @ extract_sample bam @ ''.extracted.1.fq''] None,
         Run [''pigz'', ''-f'', ''-p'', threads, ''-S'', ''.gz'',
              outdir @ extract_sample bam @ ''.extracted.2.fq''] None]
      else
        [Run [''bedtools'', ''bamtofastq'', ''-i'', temp @ extract_sample bam @ ''.hla.sorted.bam'',
              ''-fq'', outdir @ extract_sample bam @ ''.extracted.fq'']
             (Some ''[extract] converting bam to fastq: ''),
         Run [''pigz'', ''-f'', ''-p'', threads, ''-S'', ''.gz'',
              outdir @ extract_sample bam @ ''.extracted.fq''] None]) @
     [Remove [temp @ extract_sample bam @ ''.hla.sam'',
              temp @ extract_sample bam @ ''.hla.bam'',
              temp @ extract_sample bam @ ''.hla.sorted.bam''] keep_files]"

text \<open>
  A small concrete environment for examples: the world is the list of the files that
  exist, \<^verbatim>\<open>samtools index\<close> creates the index beside its argument when
  \<open>indexable\<close> holds, every command prints \<open>header\<close>, and removing files removes
  them from the list unless they are to be kept.
\<close>

definition files_env :: "bool \<Rightarrow> string \<Rightarrow> (string list) env" where
  "files_env indexable header =
     \<lparr>isfile = (\<lambda>w f. f \<in> set w),
      shell = (\<lambda>c w. (if indexable \<and> take 2 c = [''samtools'', ''index'']
                       then (concat (drop 2 c) @ ''.bai'') # w else w,
                       Some header)),
      unlink = (\<lambda>fl k w. if k then w else filter (\<lambda>f. f \<notin> set fl) w)\<rparr>"

section \<open>Properties of the model\<close>

subsection \<open>The trace of a run\<close>

lemma str_in_sublist: "str_in sub s = sublist sub s"
  by (induction s) (simp_all add: sublist_Cons_right)

lemma trace_run_command [simp]:
  "trace (fst (run_command E c m s)) = trace s @ [Run c m]"
  by (simp add: run_command_def split: prod.splits)

lemma world_run_command [simp]:
  "world (fst (run_command E c m s)) = fst (shell E c (world s))"
  by (simp add: run_command_def split: prod.splits)

lemma out_run_command [simp]:
  "snd (run_command E c m s) = snd (shell E c (world s))"
  by (simp add: run_command_def split: prod.splits)

lemma trace_log_info [simp]: "trace (log_info l s) = trace s @ [Log l]"
  by (simp add: log_info_def)

lemma world_log_info [simp]: "world (log_info l s) = world s"
  by (simp add: log_info_def)

lemma trace_remove_files [simp]:
  "trace (remove_files E fl k s) = trace s @ [Remove fl k]"
  by (simp add: remove_files_def)

lemma issued_append: "trace s' = trace s @ evs \<Longrightarrow> issued s s' = evs"
  by (simp add: issued_def)

lemma index_bam_world: "world (fst (index_bam E bam s)) = index_world E bam (world s)"
  by (simp add: index_bam_def index_world_def Let_def)

lemma index_bam_trace:
  "trace (fst (index_bam E bam s)) =
     trace s @ (if isfile E (world s) (bam @ ''.bai'') then []
                else [Run [''samtools'', ''index'', bam] (Some ''[extract] indexing bam: '')])"
  by (simp add: index_bam_def Let_def)

lemma index_bam_error:
  "snd (index_bam E bam s) =
     (if index_ok E bam (world s) then None
      else Some (SysExit ''[extract] Error: unable to index bam file.''))"
  by (simp add: index_bam_def index_ok_def index_world_def Let_def)

lemma trace_extract_alts:
  "trace (extract_alts E bam paired threads header hla_filtered alts s) =
     trace s @ map (\<lambda>alt. Run [''samtools'', ''view'', ''-@'' @ threads,
                                 (if paired then ''-f 2'' else ''-F 4''),
                                 bam, alt @ '':'', ''>>'', hla_filtered] None)
                   (filter (\<lambda>alt. str_in alt header) alts)"
  by (induction alts arbitrary: s) (simp_all add: Let_def)

lemma extract_reads_trace:
  "trace (fst (extract_reads E bam outdir paired unmapped alts temp threads keep_files s)) =
     trace s @ start_events E bam (world s) @
     (if index_ok E bam (world s) then
        Run [''samtools'', ''view'', ''-@'' @ threads, ''-H'', bam] None #
        (case bam_header E bam threads (world s) of
           None \<Rightarrow> []
         | Some header \<Rightarrow>
             body_events bam outdir paired unmapped alts temp threads keep_files header)
      else [])"
  by (simp add: extract_reads_def Let_def case_prod_beta index_bam_error index_bam_trace
        index_bam_world bam_header_def start_events_def body_events_def trace_extract_alts
      split: option.splits)

lemma extract_reads_error:
  "snd (extract_reads E bam outdir paired unmapped alts temp threads keep_files s) =
     (if \<not> index_ok E bam (world s)
      then Some (SysExit ''[extract] Error: unable to index bam file.'')
      else if bam_header E bam threads (world s) = None then Some UnicodeDecodeError
      else None)"
  by (simp add: extract_reads_def Let_def case_prod_beta index_bam_error
        index_bam_world bam_header_def split: option.splits)

lemma commands_append [simp]: "commands (xs @ ys) = commands xs @ commands ys"
  by (induction xs rule: commands.induct) simp_all

lemma removals_append [simp]: "removals (xs @ ys) = removals xs @ removals ys"
  by (induction xs rule: removals.induct) simp_all

lemma commands_map_Run [simp]: "commands (map (\<lambda>a. Run (f a) (g a)) xs) = map f xs"
  by (induction xs) simp_all

lemma removals_map_Run [simp]: "removals (map (\<lambda>a. Run (f a) (g a)) xs) = []"
  by (induction xs) simp_all

lemma step_of_index [simp]: "step_of [''samtools'', ''index'', bam] = Index"
  by (simp add: step_of_def)

lemma step_of_header_dump [simp]:
  "step_of [''samtools'', ''view'', CHR ''-'' # CHR ''@'' # threads, ''-H'', bam] = HeaderDump"
  by (simp add: step_of_def)

lemma step_of_header_extract [simp]:
  "step_of (''samtools'' # ''view'' # ''-H'' # rest) = HeaderExtract"
  by (simp add: step_of_def)

lemma step_of_read_extract [simp]:
  "flag \<noteq> ''-H'' \<Longrightarrow>
   step_of [''samtools'', ''view'', CHR ''-'' # CHR ''@'' # threads, flag, bam, region, ''>>'', out] =
     ReadExtract"
  by (simp add: step_of_def)

lemma step_of_sam_to_bam [simp]:
  "step_of (''samtools'' # ''view'' # ''-Sb'' # rest) = SamToBam"
  by (simp add: step_of_def)

lemma step_of_sort [simp]: "step_of (''samtools'' # ''sort'' # rest) = SortBam"
  by (simp add: step_of_def)

lemma step_of_bamtofastq [simp]: "step_of (''bedtools'' # ''bamtofastq'' # rest) = BamToFastq"
  by (simp add: step_of_def)

lemma step_of_pigz [simp]: "step_of (''pigz'' # rest) = Compress"
  by (simp add: step_of_def)

lemma issued_extract_reads:
  "issued s (fst (extract_reads E bam outdir paired unmapped alts temp threads keep_files s)) =
     start_events E bam (world s) @
     (if index_ok E bam (world s) then
        Run [''samtools'', ''view'', ''-@'' @ threads, ''-H'', bam] None #
        (case bam_header E bam threads (world s) of
           None \<Rightarrow> []
         | Some header \<Rightarrow>
             body_events bam outdir paired unmapped alts temp threads keep_files header)
      else [])"
  by (rule issued_append) (rule extract_reads_trace)

lemma bam_header_Some_index_ok:
  "bam_header E bam threads w = Some header \<Longrightarrow> index_ok E bam w"
  by (simp add: bam_header_def split: if_splits)

subsection \<open>The path functions\<close>

lemma rfind_from_absent: "c \<notin> set xs \<Longrightarrow> rfind_from c xs i found = found"
  by (induction xs arbitrary: i found) auto

lemma rfind_from_present:
  "c \<in> set xs \<Longrightarrow>
   \<exists>k<length xs. rfind_from c xs i found = i + int k \<and> xs ! k = c \<and> c \<notin> set (drop (Suc k) xs)"
proof (induction xs arbitrary: i found)
  case Nil
  then show ?case by simp
next
  case (Cons x xs)
  show ?case
  proof (cases "c \<in> set xs")
    case True
    from Cons.IH [OF True, of "i + 1" "if x = c then i else found"]
    obtain k where "k < length xs"
      and "rfind_from c xs (i + 1) (if x = c then i else found) = i + 1 + int k"
      and "xs ! k = c" and "c \<notin> set (drop (Suc k) xs)"
      by blast
    then have "Suc k < length (x # xs) \<and> rfind_from c (x # xs) i found = i + int (Suc k) \<and>
               (x # xs) ! Suc k = c \<and> c \<notin> set (drop (Suc (Suc k)) (x # xs))"
      by simp
    then show ?thesis by blast
  next
    case False
    with Cons.prems have "x = c" by simp
    with False have "0 < length (x # xs) \<and> rfind_from c (x # xs) i found = i + int 0 \<and>
               (x # xs) ! 0 = c \<and> c \<notin> set (drop (Suc 0) (x # xs))"
      by (simp add: rfind_from_absent)
    then show ?thesis by blast
  qed
qed

lemma splitext_loop_Some:
  "splitext_loop p a d = Some r \<Longrightarrow> r = (take d p, drop d p)"
  by (induction p a d rule: splitext_loop.induct) (simp split: if_splits)

lemma first_field_takeWhile:
  "(case split_char c s of [] \<Rightarrow> [] | f # fs \<Rightarrow> f) = takeWhile (\<lambda>x. x \<noteq> c) s"
  by (induction s) (simp_all split: list.splits)

lemma main_sample_takeWhile:
  "main_sample bam = takeWhile (\<lambda>x. x \<noteq> CHR ''.'') (basename bam)"
  by (simp add: main_sample_def first_field_takeWhile)

lemma count_before_last:
  assumes "k < length xs" and "xs ! k = c" and "c \<notin> set (drop (Suc k) xs)"
  shows "count_list xs c = Suc (count_list (take k xs) c)"
proof -
  have "xs = take k xs @ c # drop (Suc k) xs"
    using assms(1,2) by (metis id_take_nth_drop)
  then have "count_list xs c = count_list (take k xs @ c # drop (Suc k) xs) c"
    by simp
  also have "\<dots> = Suc (count_list (take k xs) c)"
    using assms(3) by (simp add: count_list_0_iff)
  finally show ?thesis .
qed

lemma splitext_root_has_dot:
  assumes "1 < count_list p c" and "c = CHR ''.''"
  shows "c \<in> set (fst (splitext p))"
proof -
  from assms(1) have mem: "c \<in> set p"
    by (metis count_list_0_iff not_less_zero)
  then obtain k where k: "k < length p" "rfind p c = int k" "p ! k = c" "c \<notin> set (drop (Suc k) p)"
    using rfind_from_present [of c p 0 "- 1"] by (auto simp: rfind_def)
  have "count_list p c = Suc (count_list (take k p) c)"
    using k by (intro count_before_last) auto
  with assms(1) have "0 < count_list (take k p) c" by simp
  then have take_mem: "c \<in> set (take k p)"
    by (metis count_list_0_iff less_numeral_extra(3))
  show ?thesis
  proof (cases "splitext_loop p (nat (rfind p CHR ''/'' + 1)) k")
    case None
    then show ?thesis using mem k(2) assms(2) by (simp add: splitext_def Let_def)
  next
    case (Some r)
    then have "r = (take k p, drop k p)" by (rule splitext_loop_Some)
    with Some show ?thesis using mem take_mem k(2) assms(2) by (simp add: splitext_def Let_def)
  qed
qed

lemma sample_names_example:
  "extract_sample ''/d/s.x.bam'' = ''s.x'' \<and> main_sample ''/d/s.x.bam'' = ''s'' \<and>
   extract_sample ''/d/..a'' = ''..a'' \<and> main_sample ''/d/..a'' = []"
  by (simp add: extract_sample_def main_sample_def splitext_def basename_def rfind_def)

subsection \<open>Commands, read extractions and thread arguments of a run\<close>

lemma alt_region_not_chrom [simp]:
  "alt @ '':'' \<noteq> ''chr6''" "alt @ '':'' \<noteq> ''6''"
  "''chr6'' \<noteq> alt @ '':''" "''6'' \<noteq> alt @ '':''"
  by (auto simp: append_eq_Cons_conv)

lemma commands_run:
  "commands (issued s (fst (extract_reads E bam outdir paired unmapped alts temp threads keep_files s))) =
     (if isfile E (world s) (bam @ ''.bai'') then [] else [[''samtools'', ''index'', bam]]) @
     (if index_ok E bam (world s) then
        [''samtools'', ''view'', ''-@'' @ threads, ''-H'', bam] #
        (case bam_header E bam threads (world s) of
           None \<Rightarrow> []
         | Some header \<Rightarrow>
             commands (body_events bam outdir paired unmapped alts temp threads keep_files header))
      else [])"
  by (simp add: issued_extract_reads start_events_def split: option.splits)

lemma read_extractions_body:
  "read_extractions (body_events bam outdir paired unmapped alts temp threads keep_files header) =
     [''samtools'', ''view'', ''-@'' @ threads, (if paired then ''-f 2'' else ''-F 4''), bam,
      (if str_in ''SN:chr'' header then ''chr6'' else ''6''), ''>>'',
      temp @ extract_sample bam @ ''.hla.sam''] #
     (if unmapped then
        [[''samtools'', ''view'', ''-@'' @ threads, (if paired then ''-f 12'' else ''-f 4''), bam,
          (if str_in ''SN:chr'' header then ''chr6'' else ''6''), ''>>'',
          temp @ extract_sample bam @ ''.hla.sam'']]
      else []) @
     map (\<lambda>alt. [''samtools'', ''view'', ''-@'' @ threads, (if paired then ''-f 2'' else ''-F 4''),
                  bam, alt @ '':'', ''>>'', temp @ extract_sample bam @ ''.hla.sam''])
         (filter (\<lambda>alt. str_in alt header) alts)"
  by (simp add: read_extractions_def body_events_def filter_map comp_def)

lemma read_extractions_run:
  "read_extractions (issued s (fst (extract_reads E bam outdir paired unmapped alts temp threads keep_files s))) =
     (case bam_header E bam threads (world s) of
        None \<Rightarrow> []
      | Some header \<Rightarrow>
          read_extractions (body_events bam outdir paired unmapped alts temp threads keep_files header))"
proof -
  have "read_extractions (xs @ ys) = read_extractions xs @ read_extractions ys" for xs ys
    by (simp add: read_extractions_def)
  then show ?thesis
    by (simp add: issued_extract_reads start_events_def read_extractions_def bam_header_def
          split: option.splits)
qed

lemma filter_eq_replicate:
  "filter (\<lambda>a. P a \<and> a = x) xs = (if P x then replicate (count_list xs x) x else [])"
  by (induction xs) auto

lemma last_differs: "last xs \<noteq> last ys \<Longrightarrow> xs \<noteq> ys"
  by auto

lemma erase_header_dump [simp]:
  "erase_threads [''samtools'', ''view'', CHR ''-'' # CHR ''@'' # threads, ''-H'', bam] =
     [''samtools'', ''view'', ''-H'', bam]"
  by (simp add: erase_threads_def threads_pos_def)

lemma erase_body_events:
  "map erase_event (body_events bam outdir paired unmapped alts temp t1 keep_files header) =
   map erase_event (body_events bam outdir paired unmapped alts temp t2 keep_files header)"
  by (simp add: body_events_def erase_threads_def threads_pos_def)

lemma passes_threads_body:
  "list_all (passes_threads threads)
     (commands (body_events bam outdir paired unmapped alts temp threads keep_files header))"
  by (simp add: body_events_def passes_threads_def threads_pos_def list_all_iff)

lemma example_header:
  "bam_header (files_env True ''@SQ SN:chr6 SN:chr6_alt'') ''/d/s.x.bam'' threads [] =
     Some ''@SQ SN:chr6 SN:chr6_alt''"
  by (simp add: bam_header_def index_ok_def index_world_def files_env_def)

lemma example_sample: "extract_sample ''/d/s.x.bam'' = ''s.x''"
  using sample_names_example by simp

section \<open>The claims\<close>

text \<open>
  In the statements below, \<open>s\<close> is the state in which \<^verbatim>\<open>extract_reads\<close> is
  called, and \<open>issued s s'\<close> are the events the run adds to the trace. A run ends early
  when \<^verbatim>\<open>index_bam\<close> exits (\<open>index_ok\<close> is false) or when the output of the
  header dump does not decode (\<open>bam_header\<close> is \<open>None\<close>). The statements on the order
  of the steps, on the first read extraction and on the removal say what is issued in
  these cases too; the others are about a run that reads a header, which is what
  \<open>bam_header E bam threads (world s) = Some header\<close> says.
\<close>

text \<open>
  C1. The tools are started in this order: the index step when the index file is
  missing, then the samtools view steps (the header dump, the header-only extraction,
  the read extractions: one for chromosome 6, one more when unmapped reads are asked
  for, one for each alt contig found in the header; then the conversion from SAM to
  BAM), then samtools sort, then bedtools bamtofastq, then pigz (twice for paired reads,
  once otherwise). A run that ends early issues a prefix of this sequence.
\<close>

theorem C1_invocation_order:
  "steps (issued s (fst (extract_reads E bam outdir paired unmapped alts temp threads keep_files s))) =
     (if isfile E (world s) (bam @ ''.bai'') then [] else [Index]) @
     (if index_ok E bam (world s) then
        HeaderDump #
        (case bam_header E bam threads (world s) of
           None \<Rightarrow> []
         | Some header \<Rightarrow>
             HeaderExtract #
             replicate (1 + (if unmapped then 1 else 0) +
                        length (filter (\<lambda>alt. sublist alt header) alts)) ReadExtract @
             [SamToBam, SortBam, BamToFastq] @
             replicate (if paired then 2 else 1) Compress)
      else [])"
  by (simp add: steps_def issued_extract_reads start_events_def body_events_def
        map_replicate_const comp_def numeral_2_eq_2 str_in_sublist split: option.splits)

theorem C1_invocation_order_example:
  "steps (issued \<lparr>world = [], trace = []\<rparr>
       (fst (extract_reads (files_env True ''@SQ SN:chr6 SN:chr6_alt'') ''/d/s.x.bam'' ''out/''
               True True [''chr6_alt'', ''zz''] ''/tmp/'' ''4'' False \<lparr>world = [], trace = []\<rparr>))) =
     [Index, HeaderDump, HeaderExtract, ReadExtract, ReadExtract, ReadExtract,
      SamToBam, SortBam, BamToFastq, Compress, Compress]"
  by (simp add: C1_invocation_order files_env_def index_ok_def index_world_def bam_header_def
        numeral_2_eq_2 str_in_sublist [symmetric])

text \<open>
  C2. For the header that the header dump returns, the read extractions name the region
  \<^verbatim>\<open>chr6\<close> exactly when \<^verbatim>\<open>SN:chr\<close> occurs in the header as a substring,
  and the region \<^verbatim>\<open>6\<close> exactly when it does not; the extractions for the
  chromosome are one, or two when unmapped reads are asked for.
\<close>

theorem C2_chromosome_region:
  assumes "bam_header E bam threads (world s) = Some header"
  shows "(with_region ''chr6'' (read_extractions (issued s (fst
            (extract_reads E bam outdir paired unmapped alts temp threads keep_files s)))) \<noteq> []
          \<longleftrightarrow> sublist ''SN:chr'' header) \<and>
         (with_region ''6'' (read_extractions (issued s (fst
            (extract_reads E bam outdir paired unmapped alts temp threads keep_files s)))) \<noteq> []
          \<longleftrightarrow> \<not> sublist ''SN:chr'' header) \<and>
         length (with_region (if sublist ''SN:chr'' header then ''chr6'' else ''6'')
           (read_extractions (issued s (fst
              (extract_reads E bam outdir paired unmapped alts temp threads keep_files s))))) =
           (if unmapped then 2 else 1)"
  by (simp add: read_extractions_run assms read_extractions_body with_region_def
        str_in_sublist filter_map comp_def)

theorem C2_chromosome_region_witness:
  "bam_header (files_env True ''@SQ SN:chr6 SN:chr6_alt'') ''/d/s.x.bam'' ''4''
     (world \<lparr>world = [], trace = []\<rparr>) = Some ''@SQ SN:chr6 SN:chr6_alt'' \<and>
   with_region ''chr6'' (read_extractions (issued \<lparr>world = [], trace = []\<rparr> (fst
     (extract_reads (files_env True ''@SQ SN:chr6 SN:chr6_alt'') ''/d/s.x.bam'' ''out/''
        True True [''chr6_alt'', ''zz''] ''/tmp/'' ''4'' False \<lparr>world = [], trace = []\<rparr>)))) \<noteq> [] \<and>
   with_region ''6'' (read_extractions (issued \<lparr>world = [], trace = []\<rparr> (fst
     (extract_reads (files_env True ''@SQ SN:chr6 SN:chr6_alt'') ''/d/s.x.bam'' ''out/''
        True True [''chr6_alt'', ''zz''] ''/tmp/'' ''4'' False \<lparr>world = [], trace = []\<rparr>)))) = []"
proof -
  have h: "bam_header (files_env True ''@SQ SN:chr6 SN:chr6_alt'') ''/d/s.x.bam'' ''4''
     (world \<lparr>world = [], trace = []\<rparr>) = Some ''@SQ SN:chr6 SN:chr6_alt''"
    by (simp add: example_header)
  have sub: "sublist ''SN:chr'' ''@SQ SN:chr6 SN:chr6_alt''"
    by (simp add: str_in_sublist [symmetric])
  show ?thesis
    using h sub C2_chromosome_region [OF h, of "''out/''" True True "[''chr6_alt'', ''zz'']" "''/tmp/''" False]
    by simp
qed

text \<open>
  C3. The first read extraction is the one for chromosome 6. Its arguments are exactly:
  the thread argument, the flag filter (\<^verbatim>\<open>-f 2\<close> for paired reads,
  \<^verbatim>\<open>-F 4\<close> otherwise), the BAM path, the region, and the redirection that appends
  to the filtered SAM file; there is no second flag filter. A run that ends before the
  header is read issues no read extraction.
\<close>

theorem C3_chromosome_6_flag:
  "take 1 (read_extractions (issued s (fst
       (extract_reads E bam outdir paired unmapped alts temp threads keep_files s)))) =
     (case bam_header E bam threads (world s) of
        None \<Rightarrow> []
      | Some header \<Rightarrow>
          [[''samtools'', ''view'', ''-@'' @ threads, (if paired then ''-f 2'' else ''-F 4''),
            bam, (if sublist ''SN:chr'' header then ''chr6'' else ''6''), ''>>'',
            temp @ extract_sample bam @ ''.hla.sam'']])"
  by (simp add: read_extractions_run read_extractions_body str_in_sublist split: option.splits)

theorem C3_chromosome_6_flag_example:
  "take 1 (read_extractions (issued \<lparr>world = [], trace = []\<rparr> (fst
     (extract_reads (files_env True ''@SQ SN:chr6 SN:chr6_alt'') ''/d/s.x.bam'' ''out/''
        True True [''chr6_alt'', ''zz''] ''/tmp/'' ''4'' False \<lparr>world = [], trace = []\<rparr>)))) =
     [[''samtools'', ''view'', ''-@4'', ''-f 2'', ''/d/s.x.bam'', ''chr6'', ''>>'',
       ''/tmp/s.x.hla.sam'']]"
  using C3_chromosome_6_flag [where E = "files_env True ''@SQ SN:chr6 SN:chr6_alt''"
      and bam = "''/d/s.x.bam''" and threads = "''4''" and s = "\<lparr>world = [], trace = []\<rparr>"
      and outdir = "''out/''" and paired = True and unmapped = True
      and alts = "[''chr6_alt'', ''zz'']" and temp = "''/tmp/''" and keep_files = False]
  by (simp add: example_header example_sample str_in_sublist [symmetric])

text \<open>
  C4. A read extraction with the flag filter of the unmapped reads is issued exactly
  when \<^verbatim>\<open>unmapped\<close> is set: with \<^verbatim>\<open>-f 12\<close> for paired reads and with
  \<^verbatim>\<open>-f 4\<close> otherwise, once, for the chromosome region, appending to the
  filtered SAM file. This is for a run that gets past the index step and reads a header.
\<close>

theorem C4_unmapped_extraction:
  assumes "bam_header E bam threads (world s) = Some header"
  shows "with_flag ''-f 12'' (read_extractions (issued s (fst
            (extract_reads E bam outdir paired unmapped alts temp threads keep_files s)))) =
           (if unmapped \<and> paired
            then [[''samtools'', ''view'', ''-@'' @ threads, ''-f 12'', bam,
                   (if sublist ''SN:chr'' header then ''chr6'' else ''6''), ''>>'',
                   temp @ extract_sample bam @ ''.hla.sam'']]
            else []) \<and>
         with_flag ''-f 4'' (read_extractions (issued s (fst
            (extract_reads E bam outdir paired unmapped alts temp threads keep_files s)))) =
           (if unmapped \<and> \<not> paired
            then [[''samtools'', ''view'', ''-@'' @ threads, ''-f 4'', bam,
                   (if sublist ''SN:chr'' header then ''chr6'' else ''6''), ''>>'',
                   temp @ extract_sample bam @ ''.hla.sam'']]
            else [])"
  by (simp add: read_extractions_run assms read_extractions_body with_flag_def
        str_in_sublist filter_map comp_def)

theorem C4_unmapped_extraction_witness:
  "bam_header (files_env True ''@SQ SN:chr6 SN:chr6_alt'') ''/d/s.x.bam'' ''4''
     (world \<lparr>world = [], trace = []\<rparr>) = Some ''@SQ SN:chr6 SN:chr6_alt'' \<and>
   with_flag ''-f 12'' (read_extractions (issued \<lparr>world = [], trace = []\<rparr> (fst
     (extract_reads (files_env True ''@SQ SN:chr6 SN:chr6_alt'') ''/d/s.x.bam'' ''out/''
        True True [''chr6_alt'', ''zz''] ''/tmp/'' ''4'' False \<lparr>world = [], trace = []\<rparr>)))) =
     [[''samtools'', ''view'', ''-@4'', ''-f 12'', ''/d/s.x.bam'', ''chr6'', ''>>'',
       ''/tmp/s.x.hla.sam'']] \<and>
   with_flag ''-f 12'' (read_extractions (issued \<lparr>world = [], trace = []\<rparr> (fst
     (extract_reads (files_env True ''@SQ SN:chr6 SN:chr6_alt'') ''/d/s.x.bam'' ''out/''
        True False [''chr6_alt'', ''zz''] ''/tmp/'' ''4'' False \<lparr>world = [], trace = []\<rparr>)))) = []"
proof -
  have h: "bam_header (files_env True ''@SQ SN:chr6 SN:chr6_alt'') ''/d/s.x.bam'' ''4''
     (world \<lparr>world = [], trace = []\<rparr>) = Some ''@SQ SN:chr6 SN:chr6_alt''"
    by (simp add: example_header)
  have sub: "sublist ''SN:chr'' ''@SQ SN:chr6 SN:chr6_alt''"
    by (simp add: str_in_sublist [symmetric])
  show ?thesis
    using h sub
      C4_unmapped_extraction [OF h, of "''out/''" True True "[''chr6_alt'', ''zz'']" "''/tmp/''" False]
      C4_unmapped_extraction [OF h, of "''out/''" True False "[''chr6_alt'', ''zz'']" "''/tmp/''" False]
    by (simp add: example_sample)
qed

text \<open>
  C5. For every name in \<^verbatim>\<open>alts\<close>, a read extraction for the region
  \<^verbatim>\<open>alt + ':'\<close> is issued exactly when the name occurs in the header as a
  substring (once for each time the name stands in the list), and each of them appends
  to the file \<^verbatim>\<open>temp + sample + '.hla.sam'\<close>, the one the chromosome 6
  extraction (the first read extraction) appends to.
\<close>

theorem C5_alt_extractions:
  assumes "bam_header E bam threads (world s) = Some header"
    and "alt \<in> set alts"
  shows "(with_region (alt @ '':'') (read_extractions (issued s (fst
            (extract_reads E bam outdir paired unmapped alts temp threads keep_files s)))) \<noteq> []
          \<longleftrightarrow> sublist alt header) \<and>
         with_region (alt @ '':'') (read_extractions (issued s (fst
            (extract_reads E bam outdir paired unmapped alts temp threads keep_files s)))) =
           (if sublist alt header
            then replicate (count_list alts alt)
                   [''samtools'', ''view'', ''-@'' @ threads, (if paired then ''-f 2'' else ''-F 4''),
                    bam, alt @ '':'', ''>>'', temp @ extract_sample bam @ ''.hla.sam'']
            else []) \<and>
         map (drop 6) (take 1 (read_extractions (issued s (fst
            (extract_reads E bam outdir paired unmapped alts temp threads keep_files s))))) =
           [[''>>'', temp @ extract_sample bam @ ''.hla.sam'']]"
proof -
  have pos: "0 < count_list alts alt"
    using assms(2) by (metis count_list_0_iff gr0I)
  have eq: "with_region (alt @ '':'') (read_extractions (issued s (fst
            (extract_reads E bam outdir paired unmapped alts temp threads keep_files s)))) =
           (if sublist alt header
            then replicate (count_list alts alt)
                   [''samtools'', ''view'', ''-@'' @ threads, (if paired then ''-f 2'' else ''-F 4''),
                    bam, alt @ '':'', ''>>'', temp @ extract_sample bam @ ''.hla.sam'']
            else [])"
    by (simp add: read_extractions_run assms(1) read_extractions_body with_region_def
          str_in_sublist filter_map comp_def filter_eq_replicate map_replicate_const)
  have first: "map (drop 6) (take 1 (read_extractions (issued s (fst
            (extract_reads E bam outdir paired unmapped alts temp threads keep_files s))))) =
           [[''>>'', temp @ extract_sample bam @ ''.hla.sam'']]"
    by (simp add: read_extractions_run assms(1) read_extractions_body)
  show ?thesis
    unfolding eq first using pos by simp
qed

theorem C5_alt_extractions_witness:
  "bam_header (files_env True ''@SQ SN:chr6 SN:chr6_alt'') ''/d/s.x.bam'' ''4''
     (world \<lparr>world = [], trace = []\<rparr>) = Some ''@SQ SN:chr6 SN:chr6_alt'' \<and>
   ''chr6_alt'' \<in> set [''chr6_alt'', ''zz''] \<and> ''zz'' \<in> set [''chr6_alt'', ''zz''] \<and>
   with_region ''chr6_alt:'' (read_extractions (issued \<lparr>world = [], trace = []\<rparr> (fst
     (extract_reads (files_env True ''@SQ SN:chr6 SN:chr6_alt'') ''/d/s.x.bam'' ''out/''
        True True [''chr6_alt'', ''zz''] ''/tmp/'' ''4'' False \<lparr>world = [], trace = []\<rparr>)))) =
     [[''samtools'', ''view'', ''-@4'', ''-f 2'', ''/d/s.x.bam'', ''chr6_alt:'', ''>>'',
       ''/tmp/s.x.hla.sam'']] \<and>
   with_region ''zz:'' (read_extractions (issued \<lparr>world = [], trace = []\<rparr> (fst
     (extract_reads (files_env True ''@SQ SN:chr6 SN:chr6_alt'') ''/d/s.x.bam'' ''out/''
        True True [''chr6_alt'', ''zz''] ''/tmp/'' ''4'' False \<lparr>world = [], trace = []\<rparr>)))) = []"
proof -
  have h: "bam_header (files_env True ''@SQ SN:chr6 SN:chr6_alt'') ''/d/s.x.bam'' ''4''
     (world \<lparr>world = [], trace = []\<rparr>) = Some ''@SQ SN:chr6 SN:chr6_alt''"
    by (simp add: example_header)
  have m1: "''chr6_alt'' \<in> set [''chr6_alt'', ''zz'']" and m2: "''zz'' \<in> set [''chr6_alt'', ''zz'']"
    by simp_all
  have sub: "sublist ''chr6_alt'' ''@SQ SN:chr6 SN:chr6_alt''" "\<not> sublist ''zz'' ''@SQ SN:chr6 SN:chr6_alt''"
    by (simp_all add: str_in_sublist [symmetric])
  show ?thesis
    using h sub
      C5_alt_extractions [OF h m1, of "''out/''" True True "''/tmp/''" False]
      C5_alt_extractions [OF h m2, of "''out/''" True True "''/tmp/''" False]
    by (simp add: example_sample)
qed

text \<open>
  C6. The conversion to FASTQ and the compression: for paired reads bedtools bamtofastq
  writes \<^verbatim>\<open>outdir + sample + '.extracted.1.fq'\<close> and
  \<^verbatim>\<open>'.extracted.2.fq'\<close> and pigz is run on each of the two; otherwise bedtools
  writes \<^verbatim>\<open>outdir + sample + '.extracted.fq'\<close> and pigz is run on it.
\<close>

theorem C6_fastq_outputs:
  assumes "bam_header E bam threads (world s) = Some header"
  shows "filter (\<lambda>c. step_of c = BamToFastq \<or> step_of c = Compress)
           (commands (issued s (fst
              (extract_reads E bam outdir paired unmapped alts temp threads keep_files s)))) =
         (if paired then
            [[''bedtools'', ''bamtofastq'', ''-i'', temp @ extract_sample bam @ ''.hla.sorted.bam'',
              ''-fq'', outdir @ extract_sample bam @ ''.extracted.1.fq'',
              ''-fq2'', outdir @ extract_sample bam @ ''.extracted.2.fq''],
             [''pigz'', ''-f'', ''-p'', threads, ''-S'', ''.gz'',
              outdir @ extract_sample bam @ ''.extracted.1.fq''],
             [''pigz'', ''-f'', ''-p'', threads, ''-S'', ''.gz'',
              outdir @ extract_sample bam @ ''.extracted.2.fq'']]
          else
            [[''bedtools'', ''bamtofastq'', ''-i'', temp @ extract_sample bam @ ''.hla.sorted.bam'',
              ''-fq'', outdir @ extract_sample bam @ ''.extracted.fq''],
             [''pigz'', ''-f'', ''-p'', threads, ''-S'', ''.gz'',
              outdir @ extract_sample bam @ ''.extracted.fq'']])"
  using bam_header_Some_index_ok [OF assms]
  by (simp add: commands_run assms body_events_def filter_map comp_def)

theorem C6_fastq_outputs_witness:
  "bam_header (files_env True ''@SQ SN:chr6 SN:chr6_alt'') ''/d/s.x.bam'' ''4''
     (world \<lparr>world = [], trace = []\<rparr>) = Some ''@SQ SN:chr6 SN:chr6_alt'' \<and>
   filter (\<lambda>c. step_of c = BamToFastq \<or> step_of c = Compress)
     (commands (issued \<lparr>world = [], trace = []\<rparr> (fst
       (extract_reads (files_env True ''@SQ SN:chr6 SN:chr6_alt'') ''/d/s.x.bam'' ''out/''
          False True [''chr6_alt'', ''zz''] ''/tmp/'' ''4'' False \<lparr>world = [], trace = []\<rparr>)))) =
     [[''bedtools'', ''bamtofastq'', ''-i'', ''/tmp/s.x.hla.sorted.bam'', ''-fq'',
       ''out/s.x.extracted.fq''],
      [''pigz'', ''-f'', ''-p'', ''4'', ''-S'', ''.gz'', ''out/s.x.extracted.fq'']]"
proof -
  have h: "bam_header (files_env True ''@SQ SN:chr6 SN:chr6_alt'') ''/d/s.x.bam'' ''4''
     (world \<lparr>world = [], trace = []\<rparr>) = Some ''@SQ SN:chr6 SN:chr6_alt''"
    by (simp add: example_header)
  show ?thesis
    using h C6_fastq_outputs [OF h, of "''out/''" False True "[''chr6_alt'', ''zz'']" "''/tmp/''" False]
    by (simp add: example_sample)
qed

text \<open>
  C7. Every samtools view and samtools sort command carries \<^verbatim>\<open>'-@' + threads\<close>
  and every pigz command carries \<^verbatim>\<open>-p\<close> followed by \<^verbatim>\<open>threads\<close>
  (\<open>passes_threads\<close>). Nothing else depends on \<^verbatim>\<open>threads\<close>: two runs from the
  same state that differ only in \<^verbatim>\<open>threads\<close>, and to which the header dump
  answers the same, emit the same events once the thread arguments are erased.
\<close>

theorem C7_threads:
  assumes "bam_header E bam t1 (world s) = bam_header E bam t2 (world s)"
  shows "list_all (passes_threads t1)
           (commands (issued s (fst
              (extract_reads E bam outdir paired unmapped alts temp t1 keep_files s)))) \<and>
         map erase_event (issued s (fst
            (extract_reads E bam outdir paired unmapped alts temp t1 keep_files s))) =
         map erase_event (issued s (fst
            (extract_reads E bam outdir paired unmapped alts temp t2 keep_files s)))"
proof -
  have passes: "list_all (passes_threads t1)
           (commands (issued s (fst
              (extract_reads E bam outdir paired unmapped alts temp t1 keep_files s))))"
    using passes_threads_body [of t1 bam outdir paired unmapped alts temp keep_files]
    by (simp add: commands_run passes_threads_def threads_pos_def split: option.splits)
  have same: "map erase_event (issued s (fst
            (extract_reads E bam outdir paired unmapped alts temp t1 keep_files s))) =
         map erase_event (issued s (fst
            (extract_reads E bam outdir paired unmapped alts temp t2 keep_files s)))"
    using assms erase_body_events [of bam outdir paired unmapped alts temp t1 keep_files _ t2]
    by (simp add: issued_extract_reads split: option.splits)
  from passes same show ?thesis by simp
qed

theorem C7_threads_witness:
  "bam_header (files_env True ''@SQ SN:chr6'') ''/d/s.x.bam'' ''4'' (world \<lparr>world = [], trace = []\<rparr>) =
   bam_header (files_env True ''@SQ SN:chr6'') ''/d/s.x.bam'' ''8'' (world \<lparr>world = [], trace = []\<rparr>) \<and>
   map erase_event (issued \<lparr>world = [], trace = []\<rparr> (fst
     (extract_reads (files_env True ''@SQ SN:chr6'') ''/d/s.x.bam'' ''out/''
        False False [] ''/tmp/'' ''4'' False \<lparr>world = [], trace = []\<rparr>))) =
   map erase_event (issued \<lparr>world = [], trace = []\<rparr> (fst
     (extract_reads (files_env True ''@SQ SN:chr6'') ''/d/s.x.bam'' ''out/''
        False False [] ''/tmp/'' ''8'' False \<lparr>world = [], trace = []\<rparr>)))"
proof -
  have h: "bam_header (files_env True ''@SQ SN:chr6'') ''/d/s.x.bam'' ''4'' (world \<lparr>world = [], trace = []\<rparr>) =
   bam_header (files_env True ''@SQ SN:chr6'') ''/d/s.x.bam'' ''8'' (world \<lparr>world = [], trace = []\<rparr>)"
    by (simp add: bam_header_def index_ok_def index_world_def files_env_def)
  show ?thesis
    using h C7_threads [OF h, of "''out/''" False False "[]" "''/tmp/''" False]
    by blast
qed

text \<open>
  C8. \<^verbatim>\<open>index_bam\<close> runs \<^verbatim>\<open>samtools index\<close> exactly when there is no
  file \<^verbatim>\<open>bam + '.bai'\<close> beforehand, and it exits with the message
  \<^verbatim>\<open>[extract] Error: unable to index bam file.\<close> exactly when that file is not
  there afterwards. When the index file is there beforehand, nothing is issued, the
  state is unchanged and there is no error.
\<close>

theorem C8_index_bam:
  "issued s (fst (index_bam E bam s)) =
     (if isfile E (world s) (bam @ ''.bai'') then []
      else [Run [''samtools'', ''index'', bam] (Some ''[extract] indexing bam: '')]) \<and>
   snd (index_bam E bam s) =
     (if isfile E (world (fst (index_bam E bam s))) (bam @ ''.bai'') then None
      else Some (SysExit ''[extract] Error: unable to index bam file.'')) \<and>
   (isfile E (world s) (bam @ ''.bai'') \<longrightarrow> index_bam E bam s = (s, None))"
  by (simp add: index_bam_def Let_def issued_def)

theorem C8_index_bam_witness:
  "index_bam (files_env True ''h'') ''/d/s.bam'' \<lparr>world = [''/d/s.bam.bai''], trace = []\<rparr> =
     (\<lparr>world = [''/d/s.bam.bai''], trace = []\<rparr>, None) \<and>
   issued \<lparr>world = [], trace = []\<rparr>
     (fst (index_bam (files_env False ''h'') ''/d/s.bam'' \<lparr>world = [], trace = []\<rparr>)) =
     [Run [''samtools'', ''index'', ''/d/s.bam''] (Some ''[extract] indexing bam: '')] \<and>
   snd (index_bam (files_env False ''h'') ''/d/s.bam'' \<lparr>world = [], trace = []\<rparr>) =
     Some (SysExit ''[extract] Error: unable to index bam file.'')"
proof -
  have "index_bam (files_env True ''h'') ''/d/s.bam'' \<lparr>world = [''/d/s.bam.bai''], trace = []\<rparr> =
          (\<lparr>world = [''/d/s.bam.bai''], trace = []\<rparr>, None)"
    using C8_index_bam [of "\<lparr>world = [''/d/s.bam.bai''], trace = []\<rparr>" "files_env True ''h''"
                             "''/d/s.bam''"]
    by (simp add: files_env_def)
  moreover have "issued \<lparr>world = [], trace = []\<rparr>
       (fst (index_bam (files_env False ''h'') ''/d/s.bam'' \<lparr>world = [], trace = []\<rparr>)) =
     [Run [''samtools'', ''index'', ''/d/s.bam''] (Some ''[extract] indexing bam: '')] \<and>
     snd (index_bam (files_env False ''h'') ''/d/s.bam'' \<lparr>world = [], trace = []\<rparr>) =
       Some (SysExit ''[extract] Error: unable to index bam file.'')"
    using C8_index_bam [of "\<lparr>world = []::string list, trace = []\<rparr>" "files_env False ''h''"
                             "''/d/s.bam''"]
    by (simp add: files_env_def index_bam_world index_world_def)
  ultimately show ?thesis by simp
qed

text \<open>
  C9. A run that reaches its end finishes with the one call of
  \<^verbatim>\<open>remove_files\<close>, on the three intermediate files under \<^verbatim>\<open>temp\<close>
  (\<^verbatim>\<open>.hla.sam\<close>, \<^verbatim>\<open>.hla.bam\<close>, \<^verbatim>\<open>.hla.sorted.bam\<close>) and with
  \<^verbatim>\<open>keep_files\<close>; a run that ends early calls it never. None of the FASTQ
  paths under \<^verbatim>\<open>outdir\<close>, compressed or not, is among the three.
\<close>

theorem C9_removal_list:
  "(case bam_header E bam threads (world s) of
      None \<Rightarrow>
        removals (issued s (fst
          (extract_reads E bam outdir paired unmapped alts temp threads keep_files s))) = []
    | Some header \<Rightarrow>
        (\<exists>evs. issued s (fst
                  (extract_reads E bam outdir paired unmapped alts temp threads keep_files s)) =
                evs @ [Remove [temp @ extract_sample bam @ ''.hla.sam'',
                               temp @ extract_sample bam @ ''.hla.bam'',
                               temp @ extract_sample bam @ ''.hla.sorted.bam''] keep_files] \<and>
               removals evs = [])) \<and>
   set [outdir @ extract_sample bam @ ''.extracted.fq'',
        outdir @ extract_sample bam @ ''.extracted.1.fq'',
        outdir @ extract_sample bam @ ''.extracted.2.fq'',
        outdir @ extract_sample bam @ ''.extracted.fq'' @ ''.gz'',
        outdir @ extract_sample bam @ ''.extracted.1.fq'' @ ''.gz'',
        outdir @ extract_sample bam @ ''.extracted.2.fq'' @ ''.gz''] \<inter>
   set [temp @ extract_sample bam @ ''.hla.sam'',
        temp @ extract_sample bam @ ''.hla.bam'',
        temp @ extract_sample bam @ ''.hla.sorted.bam''] = {}"
proof -
  have frame: "a @ b @ x \<noteq> c @ b @ y" if "x \<noteq> []" "y \<noteq> []" "last x \<noteq> last y"
    for a b c x y :: string
    using that by (intro last_differs) simp
  have disjoint: "set [outdir @ extract_sample bam @ ''.extracted.fq'',
        outdir @ extract_sample bam @ ''.extracted.1.fq'',
        outdir @ extract_sample bam @ ''.extracted.2.fq'',
        outdir @ extract_sample bam @ ''.extracted.fq'' @ ''.gz'',
        outdir @ extract_sample bam @ ''.extracted.1.fq'' @ ''.gz'',
        outdir @ extract_sample bam @ ''.extracted.2.fq'' @ ''.gz''] \<inter>
   set [temp @ extract_sample bam @ ''.hla.sam'',
        temp @ extract_sample bam @ ''.hla.bam'',
        temp @ extract_sample bam @ ''.hla.sorted.bam''] = {}"
    by (simp add: frame)
  have run: "(case bam_header E bam threads (world s) of
      None \<Rightarrow>
        removals (issued s (fst
          (extract_reads E bam outdir paired unmapped alts temp threads keep_files s))) = []
    | Some header \<Rightarrow>
        (\<exists>evs. issued s (fst
                  (extract_reads E bam outdir paired unmapped alts temp threads keep_files s)) =
                evs @ [Remove [temp @ extract_sample bam @ ''.hla.sam'',
                               temp @ extract_sample bam @ ''.hla.bam'',
                               temp @ extract_sample bam @ ''.hla.sorted.bam''] keep_files] \<and>
               removals evs = []))"
  proof (cases "bam_header E bam threads (world s)")
    case None
    then show ?thesis
      by (simp add: issued_extract_reads start_events_def)
  next
    case (Some header)
    have ok: "index_ok E bam (world s)"
      using Some by (rule bam_header_Some_index_ok)
    have split: "body_events bam outdir paired unmapped alts temp threads keep_files header =
        butlast (body_events bam outdir paired unmapped alts temp threads keep_files header) @
        [Remove [temp @ extract_sample bam @ ''.hla.sam'',
                 temp @ extract_sample bam @ ''.hla.bam'',
                 temp @ extract_sample bam @ ''.hla.sorted.bam''] keep_files]"
      by (simp add: body_events_def butlast_append)
    have quiet: "removals (butlast
        (body_events bam outdir paired unmapped alts temp threads keep_files header)) = []"
      by (simp add: body_events_def butlast_append)
    have "issued s (fst (extract_reads E bam outdir paired unmapped alts temp threads keep_files s)) =
        (start_events E bam (world s) @
         Run [''samtools'', ''view'', ''-@'' @ threads, ''-H'', bam] None #
         butlast (body_events bam outdir paired unmapped alts temp threads keep_files header)) @
        [Remove [temp @ extract_sample bam @ ''.hla.sam'',
                 temp @ extract_sample bam @ ''.hla.bam'',
                 temp @ extract_sample bam @ ''.hla.sorted.bam''] keep_files]"
      using split by (simp add: issued_extract_reads Some ok)
    moreover have "removals (start_events E bam (world s) @
         Run [''samtools'', ''view'', ''-@'' @ threads, ''-H'', bam] None #
         butlast (body_events bam outdir paired unmapped alts temp threads keep_files header)) = []"
      using quiet by (simp add: start_events_def)
    ultimately show ?thesis
      using Some by auto
  qed
  from run disjoint show ?thesis by blast
qed

theorem C9_removal_list_example:
  "removals (issued \<lparr>world = [], trace = []\<rparr> (fst
     (extract_reads (files_env True ''@SQ SN:chr6 SN:chr6_alt'') ''/d/s.x.bam'' ''out/''
        True True [''chr6_alt'', ''zz''] ''/tmp/'' ''4'' True \<lparr>world = [], trace = []\<rparr>))) =
     [([''/tmp/s.x.hla.sam'', ''/tmp/s.x.hla.bam'', ''/tmp/s.x.hla.sorted.bam''], True)]"
proof -
  have h: "bam_header (files_env True ''@SQ SN:chr6 SN:chr6_alt'') ''/d/s.x.bam'' ''4''
     (world \<lparr>world = [], trace = []\<rparr>) = Some ''@SQ SN:chr6 SN:chr6_alt''"
    by (simp add: example_header)
  show ?thesis
    using C9_removal_list [where E = "files_env True ''@SQ SN:chr6 SN:chr6_alt''"
        and bam = "''/d/s.x.bam''" and threads = "''4''" and s = "\<lparr>world = [], trace = []\<rparr>"
        and outdir = "''out/''" and paired = True and unmapped = True
        and alts = "[''chr6_alt'', ''zz'']" and temp = "''/tmp/''" and keep_files = True]
    by (auto simp: example_header example_sample)
qed

text \<open>
  C10. When the base name of the BAM path has more than one dot, the sample name of
  \<^verbatim>\<open>extract_reads\<close> (the root that \<^verbatim>\<open>splitext\<close> returns, which still has
  a dot) differs from the sample name of the main program (the base name up to its first
  dot, which has none).
\<close>

theorem C10_sample_names_differ:
  assumes "1 < count_list (basename bam) CHR ''.''"
  shows "extract_sample bam \<noteq> main_sample bam \<and>
         CHR ''.'' \<in> set (extract_sample bam) \<and>
         main_sample bam = takeWhile (\<lambda>c. c \<noteq> CHR ''.'') (basename bam) \<and>
         main_log_file outdir bam \<noteq> outdir @ extract_sample bam @ ''.extract.log''"
proof -
  have a: "CHR ''.'' \<in> set (extract_sample bam)"
    using splitext_root_has_dot [OF assms] by (simp add: extract_sample_def)
  have b: "main_sample bam = takeWhile (\<lambda>c. c \<noteq> CHR ''.'') (basename bam)"
    by (rule main_sample_takeWhile)
  have "CHR ''.'' \<notin> set (main_sample bam)"
    unfolding b by (metis (mono_tags, lifting) set_takeWhileD)
  with a have c: "extract_sample bam \<noteq> main_sample bam"
    by auto
  then have d: "main_log_file outdir bam \<noteq> outdir @ extract_sample bam @ ''.extract.log''"
    by (simp add: main_log_file_def)
  from a b c d show ?thesis by blast
qed

theorem C10_sample_names_differ_witness:
  "1 < count_list (basename ''/d/s.x.bam'') CHR ''.'' \<and>
   extract_sample ''/d/s.x.bam'' \<noteq> main_sample ''/d/s.x.bam''"
proof -
  have h: "1 < count_list (basename ''/d/s.x.bam'') CHR ''.''"
    by (simp add: basename_def rfind_def)
  show ?thesis
    using h C10_sample_names_differ [OF h] by blast
qed

end
